theory Spec2Isabelle
  imports Complex_Main "HOL-Library.Word"
begin

section \<open>Compile-time configuration of the kernel\<close>

text \<open>
  The kernel \<open>qk_int8_sv_f8_attn_kernel\<close> is a template; both host entry points
  instantiate it with \<open>CTA_Q = 64\<close>, \<open>CTA_K = 128\<close> and \<open>NUM_THREADS = 128\<close>.
  Every \<open>uint32_t\<close> of the source is a 32-bit word here, so that \<open>+\<close>, \<open>-\<close> and
  \<open>*\<close> wrap around as they do on the device.
\<close>

type_synonym u32 = "32 word"

text \<open>An \<open>int32_t\<close> is a 32-bit word too, read as two's complement by \<open>sint\<close>.\<close>

type_synonym s32 = "32 word"

datatype QuantGranularity = kPerBlock | kPerWarp | kPerThread

datatype MaskMode = kNone | kCausal

definition CTA_Q :: u32 where
  "CTA_Q = 64"

definition CTA_K :: u32 where
  "CTA_K = 128"

definition NUM_THREADS :: u32 where
  "NUM_THREADS = 128"

text \<open>
  Modelled from the spec: \<open>div_ceil\<close> is a macro of \<open>utils.cuh\<close>, which is not among
  the sources. The spec writes it as the ceiling of a quotient
  (\<open>ceil(kv_len/128)\<close>, \<open>ceil(qo_len/64)\<close>); this is that ceiling on unsigned
  32-bit operands.
\<close>

definition div_ceil :: "u32 \<Rightarrow> u32 \<Rightarrow> u32" where
  "div_ceil M N = M div N + (if M mod N = 0 then 0 else 1)"

section \<open>Float registers\<close>

text \<open>
  A \<open>float\<close> register holds a finite value, an infinity or a NaN. The constants the
  kernel writes (\<open>-5000000.0f\<close>, \<open>1.0f\<close>, \<open>0.0f\<close>) are finite and exactly
  representable in binary32.
\<close>

datatype f32 = FVal real | FPosInf | FNegInf | FNaN

text \<open>
  The register arrays of one thread: \<open>float RO[num_tiles_q][num_tiles_v][8]\<close>,
  \<open>float m[num_tiles_q][2]\<close> and \<open>float d[num_tiles_q][2]\<close>. A C array is a function
  of its indices; the arrays are declared without an initialiser, so the state the
  initialisation loops start from is arbitrary.
\<close>

record regs =
  reg_RO :: "nat \<Rightarrow> nat \<Rightarrow> nat \<Rightarrow> f32"
  reg_m :: "nat \<Rightarrow> nat \<Rightarrow> f32"
  reg_d :: "nat \<Rightarrow> nat \<Rightarrow> f32"

definition num_tiles_q :: nat where
  "num_tiles_q = unat (CTA_Q div 64)"

definition num_tiles_k :: nat where
  "num_tiles_k = unat (CTA_K div 16)"

definition num_tiles_v :: "u32 \<Rightarrow> nat" where
  "num_tiles_v head_dim = unat (head_dim div 16)"

text \<open>
  The assignment \<open>A[i][j][k] = v\<close> to an element of a three-dimensional register
  array, and the loop nest \<open>for i < a: for j < b: for k < c: body\<close> the kernel is
  written with (every such nest is fully unrolled by \<open>#pragma unroll\<close>).
\<close>

definition set3 :: "(nat \<Rightarrow> nat \<Rightarrow> nat \<Rightarrow> 'a) \<Rightarrow> nat \<Rightarrow> nat \<Rightarrow> nat \<Rightarrow> 'a \<Rightarrow> (nat \<Rightarrow> nat \<Rightarrow> nat \<Rightarrow> 'a)" where
  "set3 A i j k v = A(i := (A i)(j := (A i j)(k := v)))"

definition for3 :: "nat \<Rightarrow> nat \<Rightarrow> nat \<Rightarrow> (nat \<Rightarrow> nat \<Rightarrow> nat \<Rightarrow> 's \<Rightarrow> 's) \<Rightarrow> 's \<Rightarrow> 's" where
  "for3 a b c body s =
     fold (\<lambda>i s. fold (\<lambda>j s. fold (\<lambda>k s. body i j k s) [0..<c] s) [0..<b] s) [0..<a] s"

text \<open>The first loop of the kernel: \<open>m[fq][0..1] = -5000000.0f; d[fq][0..1] = 1.0f\<close>.\<close>

definition init_m_d :: "regs \<Rightarrow> regs" where
  "init_m_d r =
     fold (\<lambda>fq r. r\<lparr>reg_m := (reg_m r)(fq := ((reg_m r fq)(0 := FVal (- 5000000), 1 := FVal (- 5000000)))),
                     reg_d := (reg_d r)(fq := ((reg_d r fq)(0 := FVal 1, 1 := FVal 1)))\<rparr>)
       [0..<num_tiles_q] r"

text \<open>The second loop nest: \<open>RO[fq][fv][k] = 0.0f\<close> for \<open>k < 8\<close>.\<close>

definition init_RO :: "u32 \<Rightarrow> regs \<Rightarrow> regs" where
  "init_RO head_dim r =
     r\<lparr>reg_RO := for3 num_tiles_q (num_tiles_v head_dim) 8
                     (\<lambda>fq fv k RO. set3 RO fq fv k (FVal 0)) (reg_RO r)\<rparr>"

definition kernel_init :: "u32 \<Rightarrow> regs \<Rightarrow> regs" where
  "kernel_init head_dim r = init_RO head_dim (init_m_d r)"

section \<open>The tile loop of one thread-block\<close>

text \<open>
  \<open>num_iterations\<close> as the kernel computes it, with \<open>min\<close> on unsigned 32-bit values.
\<close>

definition num_iterations :: "MaskMode \<Rightarrow> u32 \<Rightarrow> u32 \<Rightarrow> u32" where
  "num_iterations mask_mode kv_len bx =
     div_ceil (if mask_mode = kCausal then min kv_len ((bx + 1) * CTA_Q) else kv_len) CTA_K"

definition k_scale_advance_offset :: "QuantGranularity \<Rightarrow> u32" where
  "k_scale_advance_offset K_GRAN = (if K_GRAN = kPerBlock \<or> K_GRAN = kPerWarp then 1 else 4)"

text \<open>
  The index of the first key scale of this thread. \<open>num_qo_heads\<close> is \<open>gridDim.y\<close>.
  The kernel divides by \<open>num_kv_groups\<close>, which the host computes as
  \<open>num_qo_heads / num_kv_heads\<close>.
\<close>

definition k_scale_idx :: "QuantGranularity \<Rightarrow> u32 \<Rightarrow> u32 \<Rightarrow> u32 \<Rightarrow> u32 \<Rightarrow> u32 \<Rightarrow> u32 \<Rightarrow> u32" where
  "k_scale_idx K_GRAN batch_id head_id num_qo_heads num_kv_groups kv_len lane_id =
     (let num_block_k = div_ceil kv_len CTA_K in
      if K_GRAN = kPerBlock \<or> K_GRAN = kPerWarp
      then batch_id * (num_qo_heads div num_kv_groups) * num_block_k
           + (head_id div num_kv_groups) * num_block_k
      else batch_id * (num_qo_heads div num_kv_groups) * (num_block_k * 4)
           + (head_id div num_kv_groups) * (num_block_k * 4) + lane_id mod 4)"

text \<open>
  The values \<open>iter\<close> takes in \<open>for (uint32_t iter = 1; iter < num_iterations; iter++)\<close>,
  started at \<open>iter\<close>.
\<close>

function loop_iters :: "u32 \<Rightarrow> u32 \<Rightarrow> u32 list" where
  "loop_iters iter n = (if iter < n then iter # loop_iters (iter + 1) n else [])"
  by pat_completeness auto
termination
proof (relation "measure (\<lambda>(iter, n). unat n - unat iter)")
  show "wf (measure (\<lambda>(iter :: u32, n :: u32). unat n - unat iter))"
    by simp
next
  fix iter n :: u32
  assume lt: "iter < n"
  then have "unat iter < unat n"
    by (simp add: word_less_nat_alt)
  moreover have "unat (iter + 1) = unat iter + 1"
    using lt by unat_arith
  ultimately show "((iter + 1, n), (iter, n)) \<in> measure (\<lambda>(iter, n). unat n - unat iter)"
    by simp
qed

declare loop_iters.simps [simp del]

text \<open>
  What the control flow of one thread-block does with the shared buffers and the key
  scales: which key rows are resident in \<open>sK\<close> and which value columns in \<open>sV\<close>
  (the coordinates of the last \<open>load_async_4D\<close>), the key tiles and value tiles the
  matrix multiplies have consumed so far, and the indices of \<open>K_scale\<close> read so far.
\<close>

record pipeline =
  sK_row :: u32
  sV_col :: u32
  qk_tiles :: "u32 list"
  pv_tiles :: "u32 list"
  K_scale_reads :: "u32 list"

text \<open>The prologue loads the query tile and the first key and value tiles.\<close>

definition prologue :: pipeline where
  "prologue = \<lparr>sK_row = 0, sV_col = 0, qk_tiles = [], pv_tiles = [], K_scale_reads = []\<rparr>"

text \<open>
  One pass of the loop body: read \<open>K_scale[k_scale_idx + (iter - 1) * k_scale_advance_offset]\<close>,
  multiply with the resident key tile, prefetch key tile \<open>iter\<close>, multiply with the
  resident value tile, prefetch value tile \<open>iter\<close>.
\<close>

definition loop_body :: "u32 \<Rightarrow> u32 \<Rightarrow> u32 \<Rightarrow> pipeline \<Rightarrow> pipeline" where
  "loop_body ksi adv iter s =
     \<lparr>sK_row = iter * CTA_K,
      sV_col = iter * CTA_K,
      qk_tiles = qk_tiles s @ [sK_row s],
      pv_tiles = pv_tiles s @ [sV_col s],
      K_scale_reads = K_scale_reads s @ [ksi + (iter - 1) * adv]\<rparr>"

text \<open>
  The final tile: read \<open>K_scale[k_scale_idx + (num_iterations - 1) * k_scale_advance_offset]\<close>,
  multiply with the resident tiles, load nothing.
\<close>

definition epilogue :: "u32 \<Rightarrow> u32 \<Rightarrow> u32 \<Rightarrow> pipeline \<Rightarrow> pipeline" where
  "epilogue ksi adv n s =
     s\<lparr>qk_tiles := qk_tiles s @ [sK_row s],
       pv_tiles := pv_tiles s @ [sV_col s],
       K_scale_reads := K_scale_reads s @ [ksi + (n - 1) * adv]\<rparr>"

definition kernel_pipeline :: "MaskMode \<Rightarrow> u32 \<Rightarrow> u32 \<Rightarrow> u32 \<Rightarrow> u32 \<Rightarrow> pipeline" where
  "kernel_pipeline mask_mode kv_len bx ksi adv =
     (let n = num_iterations mask_mode kv_len bx in
      epilogue ksi adv n (fold (loop_body ksi adv) (loop_iters 1 n) prologue))"

section \<open>Host entry points\<close>

datatype ScalarType = kInt8 | kFloat8_e4m3fn | kFloat32 | kHalf | kBFloat16 | kOtherType

text \<open>What the entry points read of a \<open>torch::Tensor\<close>.\<close>

record Tensor =
  is_cuda :: bool
  dtype :: ScalarType
  sizes :: "int list"
  strides :: "int list"
  is_contiguous :: bool

text \<open>
  Modelled from the spec: the \<open>CHECK_*\<close> macros of \<open>utils.cuh\<close>, which is not among
  the sources. The spec lists what they reject (wrong device, wrong element type,
  wrong dimensionality, non-contiguous trailing axis, shape mismatch); each failure
  raises an error before any device work.
\<close>

definition CHECK_CUDA :: "Tensor \<Rightarrow> bool" where
  "CHECK_CUDA x = is_cuda x"

definition CHECK_LASTDIM_CONTIGUOUS :: "Tensor \<Rightarrow> bool" where
  "CHECK_LASTDIM_CONTIGUOUS x = (strides x \<noteq> [] \<and> last (strides x) = 1)"

definition CHECK_CONTIGUOUS :: "Tensor \<Rightarrow> bool" where
  "CHECK_CONTIGUOUS x = is_contiguous x"

definition CHECK_DTYPE :: "Tensor \<Rightarrow> ScalarType \<Rightarrow> bool" where
  "CHECK_DTYPE x t = (dtype x = t)"

definition CHECK_DIMS :: "Tensor \<Rightarrow> nat \<Rightarrow> bool" where
  "CHECK_DIMS x n = (length (sizes x) = n)"

definition CHECK_SHAPE :: "Tensor \<Rightarrow> int list \<Rightarrow> bool" where
  "CHECK_SHAPE x s = (sizes x = s)"

text \<open>
  Modelled from the spec: \<open>div_ceil\<close> on the host's \<open>int\<close> operands (a size and a
  positive tile width), the ceiling of the quotient.
\<close>

definition div_ceil_int :: "int \<Rightarrow> int \<Rightarrow> int" where
  "div_ceil_int M N = M div N + (if M mod N = 0 then 0 else 1)"

text \<open>C++ \<open>/\<close> and \<open>%\<close> on \<open>int\<close> truncate towards zero; a zero divisor is undefined behaviour
  and is checked where the operators are used.\<close>

definition c_div :: "int \<Rightarrow> int \<Rightarrow> int" where
  "c_div a b = sgn a * sgn b * (\<bar>a\<bar> div \<bar>b\<bar>)"

definition c_rem :: "int \<Rightarrow> int \<Rightarrow> int" where
  "c_rem a b = a - b * c_div a b"

text \<open>
  How a call ends without a result: a \<open>CHECK_*\<close> or \<open>DISPATCH_*\<close> macro raises, the
  entry point throws \<open>std::invalid_argument\<close> with the message
  \<open>num_qo_heads (a) must be divisible by num_kv_heads (b)\<close> (the two numbers are
  kept), an \<open>assert\<close> aborts the process, or the integer remainder is taken with a
  zero divisor.
\<close>

datatype host_error =
    TorchCheckFailed
  | InvalidArgument int int
  | AssertionFailed
  | DivisionByZero

record attn_args =
  query :: Tensor
  key :: Tensor
  value_v :: Tensor
  output_o :: Tensor
  query_scale :: Tensor
  key_scale :: Tensor
  value_scale :: Tensor
  tensor_layout_arg :: int
  is_causal_arg :: int
  qk_quant_gran_arg :: int
  sm_scale_arg :: f32
  return_lse_arg :: int

text \<open>
  The template instance the dispatch selects, the grid and the kernel arguments of the
  launch. The \<open>int\<close> values of the host become \<open>uint32_t\<close> kernel parameters.
\<close>

record launch =
  arg_head_dim :: u32
  arg_mask_mode :: MaskMode
  arg_gran :: QuantGranularity
  arg_return_lse :: bool
  arg_fuse_v_scale :: bool
  arg_dtype_out :: ScalarType
  gridDim_x :: u32
  gridDim_y :: u32
  gridDim_z :: u32
  arg_stride_bz_o :: u32
  arg_stride_h_o :: u32
  arg_stride_seq_o :: u32
  arg_qo_len :: u32
  arg_kv_len :: u32
  arg_num_kv_groups :: u32
  arg_sm_scale :: f32

text \<open>
  What a call that returns gives back: the shape and element type of the returned
  log-sum-exp tensor, and the kernel launch it made.
\<close>

record host_result =
  lse_sizes :: "int list"
  lse_dtype :: ScalarType
  launched :: launch

text \<open>The checks every call starts with; the fused entry point also checks \<open>value_scale\<close>.\<close>

definition tensor_checks :: "bool \<Rightarrow> attn_args \<Rightarrow> bool" where
  "tensor_checks fuse_v_scale a =
     (CHECK_CUDA (query a) \<and> CHECK_CUDA (key a) \<and> CHECK_CUDA (value_v a) \<and>
      CHECK_CUDA (output_o a) \<and> CHECK_CUDA (query_scale a) \<and> CHECK_CUDA (key_scale a) \<and>
      (if fuse_v_scale then CHECK_CUDA (value_scale a) else True) \<and>
      CHECK_LASTDIM_CONTIGUOUS (query a) \<and> CHECK_LASTDIM_CONTIGUOUS (key a) \<and>
      CHECK_LASTDIM_CONTIGUOUS (value_v a) \<and> CHECK_LASTDIM_CONTIGUOUS (output_o a) \<and>
      CHECK_CONTIGUOUS (query_scale a) \<and> CHECK_CONTIGUOUS (key_scale a) \<and>
      (if fuse_v_scale then CHECK_CONTIGUOUS (value_scale a) else True) \<and>
      CHECK_DTYPE (query a) kInt8 \<and> CHECK_DTYPE (key a) kInt8 \<and>
      CHECK_DTYPE (value_v a) kFloat8_e4m3fn \<and>
      CHECK_DTYPE (query_scale a) kFloat32 \<and> CHECK_DTYPE (key_scale a) kFloat32 \<and>
      (if fuse_v_scale then CHECK_DTYPE (value_scale a) kFloat32 else True) \<and>
      CHECK_DIMS (query a) 4 \<and> CHECK_DIMS (key a) 4 \<and> CHECK_DIMS (value_v a) 4 \<and>
      CHECK_DIMS (output_o a) 4 \<and> CHECK_DIMS (query_scale a) 3 \<and> CHECK_DIMS (key_scale a) 3 \<and>
      (if fuse_v_scale then CHECK_DIMS (value_scale a) 3 else True))"

text \<open>The axis of the sequence and the axis of the heads under the two layouts.\<close>

definition seq_axis :: "attn_args \<Rightarrow> nat" where
  "seq_axis a = (if tensor_layout_arg a = 0 then 1 else 2)"

definition head_axis :: "attn_args \<Rightarrow> nat" where
  "head_axis a = (if tensor_layout_arg a = 0 then 2 else 1)"

definition layout_shape :: "attn_args \<Rightarrow> int \<Rightarrow> int \<Rightarrow> int \<Rightarrow> int \<Rightarrow> int list" where
  "layout_shape a batch_size len heads head_dim =
     (if tensor_layout_arg a = 0 then [batch_size, len, heads, head_dim]
      else [batch_size, heads, len, head_dim])"

text \<open>The sizes the entry points read off the query and key tensors.\<close>

definition batch_size_of :: "attn_args \<Rightarrow> int" where
  "batch_size_of a = sizes (query a) ! 0"

definition head_dim_of :: "attn_args \<Rightarrow> int" where
  "head_dim_of a = sizes (query a) ! 3"

definition qo_len_of :: "attn_args \<Rightarrow> int" where
  "qo_len_of a = sizes (query a) ! seq_axis a"

definition kv_len_of :: "attn_args \<Rightarrow> int" where
  "kv_len_of a = sizes (key a) ! seq_axis a"

definition num_qo_heads_of :: "attn_args \<Rightarrow> int" where
  "num_qo_heads_of a = sizes (query a) ! head_axis a"

definition num_kv_heads_of :: "attn_args \<Rightarrow> int" where
  "num_kv_heads_of a = sizes (key a) ! head_axis a"

text \<open>
  The body the two entry points share, in three parts. \<open>ndebug\<close> says whether the
  build disables \<open>assert\<close>.

  First, everything before the head-count check: the tensor checks, the shape checks
  of the key and output tensors and the assertions on the value tensor, in the order
  of the source. The result is the first failure, if any.
\<close>

definition checks_before_head_count :: "bool \<Rightarrow> bool \<Rightarrow> attn_args \<Rightarrow> host_error option" where
  "checks_before_head_count fuse_v_scale ndebug a =
    (if \<not> tensor_checks fuse_v_scale a then Some TorchCheckFailed else
     if \<not> ndebug \<and> sizes (value_v a) ! 0 \<noteq> batch_size_of a then Some AssertionFailed else
     if \<not> CHECK_SHAPE (key a)
            (layout_shape a (batch_size_of a) (kv_len_of a) (num_kv_heads_of a) (head_dim_of a))
       then Some TorchCheckFailed else
     if \<not> CHECK_SHAPE (output_o a)
            (layout_shape a (batch_size_of a) (qo_len_of a) (num_qo_heads_of a) (head_dim_of a))
       then Some TorchCheckFailed else
     if \<not> ndebug \<and> sizes (value_v a) ! seq_axis a \<noteq> head_dim_of a then Some AssertionFailed else
     if \<not> ndebug \<and> sizes (value_v a) ! head_axis a \<noteq> num_kv_heads_of a then Some AssertionFailed
     else None)"

text \<open>
  Last, the dispatch and the launch. \<open>gran_of\<close> is the decoding of \<open>qk_quant_gran\<close> by
  \<open>DISPATCH_QK_QUANT_GRAN\<close> and \<open>tensor_maps_ok\<close> the outcome of the three
  \<open>cuTensorMapEncodeTiled\<close> calls (asserted by \<open>create_tensor_map_4D\<close>), both outside
  the sources.

  Modelled from the spec: the \<open>DISPATCH_*\<close> macros of \<open>dispatch_utils.h\<close>: a head
  dimension other than 64 and 128 fails at dispatch, a granularity other than
  per-warp and per-thread fails, and the output is half or bfloat16.
\<close>

definition dispatch_and_launch ::
  "bool \<Rightarrow> bool \<Rightarrow> (int \<Rightarrow> QuantGranularity option) \<Rightarrow> bool \<Rightarrow> attn_args \<Rightarrow> int list \<Rightarrow>
   host_error + host_result" where
  "dispatch_and_launch fuse_v_scale ndebug gran_of tensor_maps_ok a lse =
    (if head_dim_of a \<noteq> 64 \<and> head_dim_of a \<noteq> 128 then Inl TorchCheckFailed else
     (case gran_of (qk_quant_gran_arg a) of
        None \<Rightarrow> Inl TorchCheckFailed
      | Some kPerBlock \<Rightarrow> Inl TorchCheckFailed
      | Some gran \<Rightarrow>
     if dtype (output_o a) \<noteq> kHalf \<and> dtype (output_o a) \<noteq> kBFloat16 then Inl TorchCheckFailed else
     if \<not> ndebug \<and> sizes (value_v a) ! 3 < div_ceil_int (kv_len_of a) 128 * 128
       then Inl AssertionFailed else
     if \<not> CHECK_SHAPE (query_scale a)
            [batch_size_of a, num_qo_heads_of a,
             div_ceil_int (qo_len_of a) 64 * (128 div 32) * (if gran = kPerThread then 8 else 1)]
       then Inl TorchCheckFailed else
     if \<not> CHECK_SHAPE (key_scale a)
            [batch_size_of a, num_kv_heads_of a,
             div_ceil_int (kv_len_of a) 128 * (if gran = kPerThread then 4 else 1)]
       then Inl TorchCheckFailed else
     if fuse_v_scale \<and>
        \<not> CHECK_SHAPE (value_scale a) [batch_size_of a, num_kv_heads_of a, head_dim_of a]
       then Inl TorchCheckFailed else
     if \<not> ndebug \<and> \<not> tensor_maps_ok then Inl AssertionFailed else
     Inr \<lparr>lse_sizes = lse,
          lse_dtype = kFloat32,
          launched =
            \<lparr>arg_head_dim = of_int (head_dim_of a),
             arg_mask_mode = (if is_causal_arg a \<noteq> 0 then kCausal else kNone),
             arg_gran = gran,
             arg_return_lse = (return_lse_arg a \<noteq> 0),
             arg_fuse_v_scale = fuse_v_scale,
             arg_dtype_out = dtype (output_o a),
             gridDim_x = of_int (div_ceil_int (qo_len_of a) 64),
             gridDim_y = of_int (num_qo_heads_of a),
             gridDim_z = of_int (batch_size_of a),
             arg_stride_bz_o = of_int (strides (output_o a) ! 0),
             arg_stride_h_o = of_int (strides (output_o a) ! head_axis a),
             arg_stride_seq_o = of_int (strides (output_o a) ! seq_axis a),
             arg_qo_len = of_int (qo_len_of a),
             arg_kv_len = of_int (kv_len_of a),
             arg_num_kv_groups = of_int (c_div (num_qo_heads_of a) (num_kv_heads_of a)),
             arg_sm_scale = sm_scale_arg a\<rparr>\<rparr>))"

text \<open>
  In between, the head-count check \<open>num_qo_heads % num_kv_heads != 0\<close>, which throws
  \<open>std::invalid_argument\<close>, and the allocation of the log-sum-exp tensor:
  \<open>torch::empty({0})\<close>, replaced by a float32 tensor of shape
  \<open>(batch_size, num_qo_heads, qo_len)\<close> when \<open>return_lse\<close> is nonzero.
\<close>

definition attn_inst_buf ::
  "bool \<Rightarrow> bool \<Rightarrow> (int \<Rightarrow> QuantGranularity option) \<Rightarrow> bool \<Rightarrow> attn_args \<Rightarrow> host_error + host_result" where
  "attn_inst_buf fuse_v_scale ndebug gran_of tensor_maps_ok a =
    (case checks_before_head_count fuse_v_scale ndebug a of
       Some e \<Rightarrow> Inl e
     | None \<Rightarrow>
         if num_kv_heads_of a = 0 then Inl DivisionByZero else
         if c_rem (num_qo_heads_of a) (num_kv_heads_of a) \<noteq> 0
           then Inl (InvalidArgument (num_qo_heads_of a) (num_kv_heads_of a)) else
         dispatch_and_launch fuse_v_scale ndebug gran_of tensor_maps_ok a
           (if return_lse_arg a \<noteq> 0 then [batch_size_of a, num_qo_heads_of a, qo_len_of a] else [0]))"

definition qk_int8_sv_f8_accum_f32_attn_inst_buf ::
  "bool \<Rightarrow> (int \<Rightarrow> QuantGranularity option) \<Rightarrow> bool \<Rightarrow> attn_args \<Rightarrow> host_error + host_result" where
  "qk_int8_sv_f8_accum_f32_attn_inst_buf = attn_inst_buf False"

definition qk_int8_sv_f8_accum_f32_fuse_v_scale_attn_inst_buf ::
  "bool \<Rightarrow> (int \<Rightarrow> QuantGranularity option) \<Rightarrow> bool \<Rightarrow> attn_args \<Rightarrow> host_error + host_result" where
  "qk_int8_sv_f8_accum_f32_fuse_v_scale_attn_inst_buf = attn_inst_buf True"

text \<open>Concrete calls used to evaluate the entry points.\<close>

definition cuda_tensor :: "ScalarType \<Rightarrow> int list \<Rightarrow> int list \<Rightarrow> Tensor" where
  "cuda_tensor t sz st = \<lparr>is_cuda = True, dtype = t, sizes = sz, strides = st, is_contiguous = True\<rparr>"

text \<open>
  Layout 0 with \<open>batch = 1\<close>, \<open>qo_len = 100\<close>, \<open>kv_len = 200\<close>, two query heads, one
  key/value head, \<open>head_dim = 64\<close>, per-warp scales.
\<close>

definition example_call :: "int \<Rightarrow> attn_args" where
  "example_call lse =
     \<lparr>query = cuda_tensor kInt8 [1, 100, 2, 64] [12800, 128, 64, 1],
      key = cuda_tensor kInt8 [1, 200, 1, 64] [12800, 64, 64, 1],
      value_v = cuda_tensor kFloat8_e4m3fn [1, 64, 1, 256] [16384, 256, 256, 1],
      output_o = cuda_tensor kHalf [1, 100, 2, 64] [12800, 128, 64, 1],
      query_scale = cuda_tensor kFloat32 [1, 2, 8] [16, 8, 1],
      key_scale = cuda_tensor kFloat32 [1, 1, 2] [2, 2, 1],
      value_scale = cuda_tensor kFloat32 [1, 1, 64] [64, 64, 1],
      tensor_layout_arg = 0, is_causal_arg = 0, qk_quant_gran_arg = 2,
      sm_scale_arg = FVal (1 / 8), return_lse_arg = lse\<rparr>"

text \<open>The same call with three query heads for two key/value heads.\<close>

definition mismatched_heads_call :: attn_args where
  "mismatched_heads_call =
     (example_call 0)
       \<lparr>query := cuda_tensor kInt8 [1, 100, 3, 64] [19200, 192, 64, 1],
        key := cuda_tensor kInt8 [1, 200, 2, 64] [25600, 128, 64, 1],
        value_v := cuda_tensor kFloat8_e4m3fn [1, 64, 2, 256] [32768, 512, 256, 1],
        output_o := cuda_tensor kHalf [1, 100, 3, 64] [19200, 192, 64, 1]\<rparr>"

text \<open>A call whose key and value tensors have no heads: \<open>num_kv_heads = 0\<close>.\<close>

definition zero_kv_heads_call :: attn_args where
  "zero_kv_heads_call =
     (example_call 0)
       \<lparr>key := cuda_tensor kInt8 [1, 200, 0, 64] [12800, 64, 64, 1],
        value_v := cuda_tensor kFloat8_e4m3fn [1, 64, 0, 256] [16384, 256, 256, 1]\<rparr>"

text \<open>A call whose key tensor has no rows: \<open>kv_len = 0\<close>, with the key scales of
  shape \<open>(1, 1, 0)\<close> that the shape check asks for.\<close>

definition zero_kv_len_call :: attn_args where
  "zero_kv_len_call =
     (example_call 0)
       \<lparr>key := cuda_tensor kInt8 [1, 0, 1, 64] [64, 64, 64, 1],
        value_v := cuda_tensor kFloat8_e4m3fn [1, 64, 1, 0] [64, 1, 1, 1],
        key_scale := cuda_tensor kFloat32 [1, 1, 0] [1, 1, 1]\<rparr>"

text \<open>Modelled from the spec: a decoding of \<open>qk_quant_gran\<close> for the examples; the
  spec fixes no numbers, and the examples use 2 for per-warp and 3 for per-thread.\<close>

definition example_gran_of :: "int \<Rightarrow> QuantGranularity option" where
  "example_gran_of g = (if g = 2 then Some kPerWarp else if g = 3 then Some kPerThread else None)"

section \<open>Threads and the positions they hold\<close>

text \<open>\<open>warp_idx\<close> and \<open>lane_id\<close> of the thread with \<open>threadIdx.x = tid\<close>.\<close>

definition warp_idx :: "u32 \<Rightarrow> u32" where
  "warp_idx tid = (tid mod 128) div 32"

definition lane_id :: "u32 \<Rightarrow> u32" where
  "lane_id tid = tid mod 32"

definition Q_idx_lane_base :: "u32 \<Rightarrow> u32 \<Rightarrow> u32" where
  "Q_idx_lane_base bx tid = bx * CTA_Q + warp_idx tid * 16 + lane_id tid div 4"

section \<open>Masking of the final tile\<close>

text \<open>
  The query position and the key position of the score \<open>RS_f32[fq][fk][k]\<close> as the
  masking loop computes them; \<open>n\<close> is \<open>num_iterations\<close>. The loop counters are
  \<open>uint32_t\<close> as well.
\<close>

definition q_idx :: "u32 \<Rightarrow> u32 \<Rightarrow> nat \<Rightarrow> nat \<Rightarrow> u32" where
  "q_idx bx tid fq k = Q_idx_lane_base bx tid + of_nat fq * 64 + 8 * ((of_nat k mod 4) div 2)"

definition k_idx :: "u32 \<Rightarrow> u32 \<Rightarrow> nat \<Rightarrow> nat \<Rightarrow> u32" where
  "k_idx n tid fk k =
     (n - 1) * CTA_K + of_nat fk * 16 + 2 * (lane_id tid mod 4) + 8 * (of_nat k div 4) + of_nat k mod 2"

definition is_out_of_bounds :: "MaskMode \<Rightarrow> u32 \<Rightarrow> u32 \<Rightarrow> u32 \<Rightarrow> bool" where
  "is_out_of_bounds mask_mode kv_len q k =
     (if mask_mode = kCausal then k > q \<or> k \<ge> kv_len else k \<ge> kv_len)"

definition apply_mask ::
  "MaskMode \<Rightarrow> u32 \<Rightarrow> u32 \<Rightarrow> u32 \<Rightarrow> u32 \<Rightarrow> (nat \<Rightarrow> nat \<Rightarrow> nat \<Rightarrow> f32) \<Rightarrow> (nat \<Rightarrow> nat \<Rightarrow> nat \<Rightarrow> f32)" where
  "apply_mask mask_mode kv_len bx tid n RS_f32 =
     for3 num_tiles_q num_tiles_k 8
       (\<lambda>fq fk k RS.
          if is_out_of_bounds mask_mode kv_len (q_idx bx tid fq k) (k_idx n tid fk k)
          then set3 RS fq fk k (FVal (- 5000000)) else RS)
       RS_f32"

text \<open>
  The conversion loop of the final tile:
  \<open>RS_f32[fq][fk][k] = __int2float_rz(RS[fq][fk][k]) * dequant_scale\<close>. The conversion
  and the float product are device operations and are parameters here.
\<close>

definition dequantize ::
  "(s32 \<Rightarrow> f32) \<Rightarrow> (f32 \<Rightarrow> f32 \<Rightarrow> f32) \<Rightarrow> f32 \<Rightarrow> (nat \<Rightarrow> nat \<Rightarrow> nat \<Rightarrow> s32) \<Rightarrow>
   (nat \<Rightarrow> nat \<Rightarrow> nat \<Rightarrow> f32) \<Rightarrow> (nat \<Rightarrow> nat \<Rightarrow> nat \<Rightarrow> f32)" where
  "dequantize int2float_rz fmul dequant_scale RS RS_f32 =
     for3 num_tiles_q num_tiles_k 8
       (\<lambda>fq fk k A. set3 A fq fk k (fmul (int2float_rz (RS fq fk k)) dequant_scale))
       RS_f32"

text \<open>
  The score path of the final tile up to the softmax update: convert and dequantise,
  mask, then call \<open>update_mdo\<close> with the original softmax scale. \<open>update_mdo\<close> is a
  function of \<open>attn_utils.cuh\<close>, outside the sources; it takes the score tile, the
  registers and the scale and returns the new tile and registers.
\<close>

definition epilogue_softmax ::
  "((nat \<Rightarrow> nat \<Rightarrow> nat \<Rightarrow> f32) \<Rightarrow> regs \<Rightarrow> f32 \<Rightarrow> (nat \<Rightarrow> nat \<Rightarrow> nat \<Rightarrow> f32) \<times> regs) \<Rightarrow>
   (s32 \<Rightarrow> f32) \<Rightarrow> (f32 \<Rightarrow> f32 \<Rightarrow> f32) \<Rightarrow>
   MaskMode \<Rightarrow> u32 \<Rightarrow> u32 \<Rightarrow> u32 \<Rightarrow> u32 \<Rightarrow> f32 \<Rightarrow> f32 \<Rightarrow>
   (nat \<Rightarrow> nat \<Rightarrow> nat \<Rightarrow> s32) \<Rightarrow> (nat \<Rightarrow> nat \<Rightarrow> nat \<Rightarrow> f32) \<Rightarrow> regs \<Rightarrow>
   (nat \<Rightarrow> nat \<Rightarrow> nat \<Rightarrow> f32) \<times> regs" where
  "epilogue_softmax update_mdo int2float_rz fmul mask_mode kv_len bx tid n dequant_scale
       original_sm_scale RS RS_f32 r =
     (let converted = dequantize int2float_rz fmul dequant_scale RS RS_f32;
          masked = apply_mask mask_mode kv_len bx tid n converted
      in update_mdo masked r original_sm_scale)"

section \<open>Key-scale reads of a thread\<close>

text \<open>
  The indices at which the thread \<open>tid\<close> of block \<open>(bx, head_id, batch_id)\<close> reads
  \<open>K_scale\<close> during a launch, in order.
\<close>

definition thread_K_scale_reads :: "launch \<Rightarrow> u32 \<Rightarrow> u32 \<Rightarrow> u32 \<Rightarrow> u32 \<Rightarrow> u32 list" where
  "thread_K_scale_reads L batch_id head_id bx tid =
     K_scale_reads
       (kernel_pipeline (arg_mask_mode L) (arg_kv_len L) bx
          (k_scale_idx (arg_gran L) batch_id head_id (gridDim_y L) (arg_num_kv_groups L)
             (arg_kv_len L) (lane_id tid))
          (k_scale_advance_offset (arg_gran L)))"

text \<open>The number of elements of a tensor.\<close>

definition numel :: "Tensor \<Rightarrow> int" where
  "numel x = prod_list (sizes x)"

section \<open>Write-back of the output and the log-sum-exp\<close>

text \<open>
  A global buffer is a function from element offsets (counted from its base pointer) to
  values. A thread's stores are listed in program order as pairs of offset and value;
  \<open>apply_writes\<close> performs them. A \<open>half2\<close> or \<open>nv_bfloat162\<close> store writes two
  neighbouring elements.
\<close>

definition apply_writes :: "(nat \<times> 'a) list \<Rightarrow> (nat \<Rightarrow> 'a) \<Rightarrow> (nat \<Rightarrow> 'a)" where
  "apply_writes ws mem = fold (\<lambda>(p, v) mem. mem(p := v)) ws mem"

definition store2 :: "nat \<Rightarrow> 'a \<Rightarrow> 'a \<Rightarrow> (nat \<times> 'a) list" where
  "store2 p a b = [(p, a), (p + 1, b)]"

text \<open>
  \<open>O_lane_ptr\<close> as an offset from \<open>O\<close>. The pointer sum
  \<open>O + batch_id * stride_bz_o + head_id * stride_h_o + (...) * stride_seq_o + (lane_id % 4) * 2\<close>
  associates to the left, so each \<open>uint32_t\<close> product is formed (and wraps) on its own
  and is then added to the 64-bit pointer.
\<close>

definition O_lane_ptr :: "launch \<Rightarrow> u32 \<Rightarrow> u32 \<Rightarrow> u32 \<Rightarrow> u32 \<Rightarrow> nat" where
  "O_lane_ptr L batch_id head_id bx tid =
     unat (batch_id * arg_stride_bz_o L) + unat (head_id * arg_stride_h_o L)
     + unat ((bx * CTA_Q + warp_idx tid * 16 + lane_id tid div 4) * arg_stride_seq_o L)
     + unat ((lane_id tid mod 4) * 2)"

text \<open>
  The stores of one thread to \<open>O\<close>. \<open>rn\<close> is the rounding of a float to the output
  element type (\<open>__float22half2_rn\<close> or \<open>__float22bfloat162_rn\<close>, componentwise);
  \<open>((float2*)(RO[fq][fv]))[j]\<close> is the pair of registers \<open>2j\<close> and \<open>2j + 1\<close>.
\<close>

definition thread_O_writes ::
  "(f32 \<Rightarrow> 'o) \<Rightarrow> launch \<Rightarrow> u32 \<Rightarrow> u32 \<Rightarrow> u32 \<Rightarrow> u32 \<Rightarrow> (nat \<Rightarrow> nat \<Rightarrow> nat \<Rightarrow> f32) \<Rightarrow> (nat \<times> 'o) list" where
  "thread_O_writes rn L batch_id head_id bx tid RO =
     concat (map (\<lambda>fq. concat (map (\<lambda>fv.
       (let p = O_lane_ptr L batch_id head_id bx tid
                + unat (of_nat fq * 64 * arg_stride_seq_o L) + unat (of_nat fv * 16 :: u32)
        in
        (if Q_idx_lane_base bx tid + of_nat fq * 64 < arg_qo_len L
         then store2 p (rn (RO fq fv 0)) (rn (RO fq fv 1))
              @ store2 (p + 8) (rn (RO fq fv 4)) (rn (RO fq fv 5))
         else [])
        @
        (if Q_idx_lane_base bx tid + of_nat fq * 64 + 8 < arg_qo_len L
         then store2 (p + unat (8 * arg_stride_seq_o L)) (rn (RO fq fv 2)) (rn (RO fq fv 3))
              @ store2 (p + 8 + unat (8 * arg_stride_seq_o L)) (rn (RO fq fv 6)) (rn (RO fq fv 7))
         else [])))
       [0..<unat (arg_head_dim L div 16)]))
     [0..<num_tiles_q])"



text \<open>
  The threads of a launch: \<open>blockIdx.z\<close>, \<open>blockIdx.y\<close>, \<open>blockIdx.x\<close> and
  \<open>threadIdx.x\<close>, listed block by block.
\<close>

definition grid_threads :: "launch \<Rightarrow> (u32 \<times> u32 \<times> u32 \<times> u32) list" where
  "grid_threads L =
     [(of_nat b, of_nat h, of_nat x, of_nat t).
        b \<leftarrow> [0..<unat (gridDim_z L)], h \<leftarrow> [0..<unat (gridDim_y L)],
        x \<leftarrow> [0..<unat (gridDim_x L)], t \<leftarrow> [0..<unat NUM_THREADS]]"

text \<open>
  All stores of a launch, thread after thread in the order \<open>sched\<close>. \<open>R\<close> gives the
  registers each thread holds after \<open>normalize_d\<close> and the value rescaling: they are
  computed from the read-only inputs alone.
\<close>

definition kernel_O_writes ::
  "(f32 \<Rightarrow> 'o) \<Rightarrow> launch \<Rightarrow> (u32 \<Rightarrow> u32 \<Rightarrow> u32 \<Rightarrow> u32 \<Rightarrow> regs) \<Rightarrow> (u32 \<times> u32 \<times> u32 \<times> u32) list \<Rightarrow>
   (nat \<times> 'o) list" where
  "kernel_O_writes rn L R sched =
     concat (map (\<lambda>(batch_id, head_id, bx, tid).
        thread_O_writes rn L batch_id head_id bx tid (reg_RO (R batch_id head_id bx tid))) sched)"


section \<open>Elements of the results and the threads that hold them\<close>




text \<open>
  The offset of \<open>O[b][h][r][c]\<close> under the strides of the launch, the thread that holds
  the element, the register \<open>RO[0][c div 16][k]\<close> it holds it in, and the value stored.
\<close>

definition O_index :: "launch \<Rightarrow> nat \<Rightarrow> nat \<Rightarrow> nat \<Rightarrow> nat \<Rightarrow> nat" where
  "O_index L b h r c =
     b * unat (arg_stride_bz_o L) + h * unat (arg_stride_h_o L) + r * unat (arg_stride_seq_o L) + c"

definition O_owner :: "nat \<Rightarrow> nat \<Rightarrow> nat" where
  "O_owner r c = 32 * ((r mod 64) div 16) + 4 * (r mod 8) + (c mod 8) div 2"

definition O_reg :: "nat \<Rightarrow> nat \<Rightarrow> nat" where
  "O_reg r c = 4 * ((c mod 16) div 8) + 2 * ((r mod 16) div 8) + c mod 2"

definition O_value ::
  "(f32 \<Rightarrow> 'o) \<Rightarrow> (u32 \<Rightarrow> u32 \<Rightarrow> u32 \<Rightarrow> u32 \<Rightarrow> regs) \<Rightarrow> nat \<Rightarrow> nat \<Rightarrow> nat \<Rightarrow> nat \<Rightarrow> 'o" where
  "O_value rn R b h r c =
     rn (reg_RO (R (of_nat b) (of_nat h) (of_nat (r div 64)) (of_nat (O_owner r c)))
           0 (c div 16) (O_reg r c))"

text \<open>
  What the entry points guarantee of a launch: \<open>qo_len\<close> came from an \<open>int\<close>, and the
  grid has one block per query tile.
\<close>

definition grid_ok :: "launch \<Rightarrow> bool" where
  "grid_ok L = (unat (arg_qo_len L) < 2 ^ 31 \<and> gridDim_x L = div_ceil (arg_qo_len L) CTA_Q)"


text \<open>
  The output tensor spans fewer than \<open>2^32\<close> elements along each axis, and its head
  dimension is one the dispatch admits.
\<close>

definition O_fits :: "launch \<Rightarrow> bool" where
  "O_fits L =
     (unat (gridDim_z L) * unat (arg_stride_bz_o L) < 2 ^ 32 \<and>
      unat (gridDim_y L) * unat (arg_stride_h_o L) < 2 ^ 32 \<and>
      unat (arg_qo_len L) * unat (arg_stride_seq_o L) < 2 ^ 32 \<and>
      (arg_head_dim L = 64 \<or> arg_head_dim L = 128))"



section \<open>Auxiliary facts about loops and machine arithmetic\<close>

lemma unat_lt_2p32: "unat (n :: u32) < 4294967296"
  using unsigned_less [of n, where ?'a = nat] by simp

lemma ceil_div:
  fixes x n :: nat
  assumes n: "0 < n"
  shows "(x + (n - 1)) div n = x div n + (if x mod n = 0 then 0 else 1)"
proof -
  have e: "x = n * (x div n) + x mod n" by simp
  have l: "x mod n < n" using n by simp
  show ?thesis
  proof (cases "x mod n = 0")
    case True
    have "(x + (n - 1)) div n = x div n"
    proof (rule div_nat_eqI)
      show "n * (x div n) \<le> x + (n - 1)" using e by linarith
      show "x + (n - 1) < n * Suc (x div n)"
        unfolding mult_Suc_right using e True n by linarith
    qed
    then show ?thesis using True by simp
  next
    case False
    have "(x + (n - 1)) div n = Suc (x div n)"
    proof (rule div_nat_eqI)
      show "n * Suc (x div n) \<le> x + (n - 1)"
        unfolding mult_Suc_right using e False n by linarith
      show "x + (n - 1) < n * Suc (Suc (x div n))"
        unfolding mult_Suc_right using e l by linarith
    qed
    then show ?thesis using False by simp
  qed
qed



lemma loop_iters_eq: "loop_iters i n = map of_nat [unat i..<unat n]"
proof (induction i n rule: loop_iters.induct)
  case (1 iter n)
  show ?case
  proof (cases "iter < n")
    case True
    then have lt: "unat iter < unat n" by (simp add: word_less_nat_alt)
    have s: "unat (iter + 1) = Suc (unat iter)" using True by unat_arith
    have "loop_iters iter n = iter # loop_iters (iter + 1) n"
      using True by (subst loop_iters.simps) simp
    also have "\<dots> = iter # map of_nat [Suc (unat iter)..<unat n]"
      using 1 True s by simp
    also have "\<dots> = map of_nat [unat iter..<unat n]"
      using lt by (simp add: upt_conv_Cons)
    finally show ?thesis .
  next
    case False
    then have "\<not> unat iter < unat n" by (simp add: word_less_nat_alt)
    then show ?thesis using False by (subst loop_iters.simps) simp
  qed
qed

lemma set3_apply: "set3 A i j k v i' j' k' = (if i' = i \<and> j' = j \<and> k' = k then v else A i' j' k')"
  by (simp add: set3_def)

lemma fold_set3_inner:
  "fold (\<lambda>k A. set3 A i j k (g k (A i j k))) [0..<c] A i' j' k' =
     (if i' = i \<and> j' = j \<and> k' < c then g k' (A i' j' k') else A i' j' k')"
  by (induction c) (auto simp: set3_apply)

lemma fold_set3_middle:
  "fold (\<lambda>j A. fold (\<lambda>k A. set3 A i j k (g j k (A i j k))) [0..<c] A) [0..<b] A i' j' k' =
     (if i' = i \<and> j' < b \<and> k' < c then g j' k' (A i' j' k') else A i' j' k')"
  by (induction b) (auto simp: fold_set3_inner)

lemma for3_set3:
  "for3 a b c (\<lambda>i j k A. set3 A i j k (g i j k (A i j k))) A i' j' k' =
     (if i' < a \<and> j' < b \<and> k' < c then g i' j' k' (A i' j' k') else A i' j' k')"
  unfolding for3_def
  by (induction a) (auto simp: fold_set3_middle)

lemma num_tiles_q_1: "num_tiles_q = 1"
  by (simp add: num_tiles_q_def CTA_Q_def)

lemma num_tiles_k_8: "num_tiles_k = 8"
  by (simp add: num_tiles_k_def CTA_K_def)

section \<open>Kernel entry\<close>

lemma kernel_init_m:
  "fq < num_tiles_q \<Longrightarrow> k < 2 \<Longrightarrow> reg_m (kernel_init head_dim r) fq k = FVal (- 5000000)"
  by (auto simp add: kernel_init_def init_RO_def init_m_d_def num_tiles_q_1)

lemma kernel_init_d:
  "fq < num_tiles_q \<Longrightarrow> k < 2 \<Longrightarrow> reg_d (kernel_init head_dim r) fq k = FVal 1"
  by (auto simp add: kernel_init_def init_RO_def init_m_d_def num_tiles_q_1)

lemma kernel_init_RO:
  "fq < num_tiles_q \<Longrightarrow> fv < num_tiles_v head_dim \<Longrightarrow> k < 8 \<Longrightarrow>
   reg_RO (kernel_init head_dim r) fq fv k = FVal 0"
  using for3_set3 [where g = "\<lambda>_ _ _ _. FVal 0" and A = "reg_RO (init_m_d r)"
      and a = num_tiles_q and b = "num_tiles_v head_dim" and c = 8 and i' = fq and j' = fv and k' = k]
  by (simp add: kernel_init_def init_RO_def)

text \<open>
  C7. At kernel entry, before any key/value tile is processed, every running-max
  register \<open>m[fq][k]\<close> holds the finite sentinel \<open>-5000000.0\<close> (not negative infinity),
  every running-normaliser register \<open>d[fq][k]\<close> holds \<open>1.0\<close> and every output
  accumulator \<open>RO[fq][fv][k]\<close> holds \<open>0.0\<close>, whatever the registers held before.
\<close>

theorem kernel_entry_registers:
  "\<forall>fq<num_tiles_q.
     (\<forall>k<2. reg_m (kernel_init head_dim r) fq k = FVal (- 5000000) \<and>
             reg_m (kernel_init head_dim r) fq k \<noteq> FNegInf \<and>
             reg_d (kernel_init head_dim r) fq k = FVal 1) \<and>
     (\<forall>fv<num_tiles_v head_dim. \<forall>k<8. reg_RO (kernel_init head_dim r) fq fv k = FVal 0)"
  by (simp add: kernel_init_m kernel_init_d kernel_init_RO)

theorem kernel_entry_registers_witness:
  "reg_m (kernel_init 64 \<lparr>reg_RO = \<lambda>_ _ _. FNaN, reg_m = \<lambda>_ _. FNegInf, reg_d = \<lambda>_ _. FNaN\<rparr>) 0 1 = FVal (- 5000000) \<and>
   reg_d (kernel_init 64 \<lparr>reg_RO = \<lambda>_ _ _. FNaN, reg_m = \<lambda>_ _. FNegInf, reg_d = \<lambda>_ _. FNaN\<rparr>) 0 0 = FVal 1 \<and>
   reg_RO (kernel_init 64 \<lparr>reg_RO = \<lambda>_ _ _. FNaN, reg_m = \<lambda>_ _. FNegInf, reg_d = \<lambda>_ _. FNaN\<rparr>) 0 3 7 = FVal 0"
proof -
  have q: "(0::nat) < num_tiles_q" by (simp add: num_tiles_q_1)
  have v: "(3::nat) < num_tiles_v 64" by (simp add: num_tiles_v_def)
  show ?thesis
    using kernel_entry_registers [of 64 "\<lparr>reg_RO = \<lambda>_ _ _. FNaN, reg_m = \<lambda>_ _. FNegInf, reg_d = \<lambda>_ _. FNaN\<rparr>"] q v
    by auto
qed

section \<open>The tile loop\<close>



lemma kernel_pipeline_zero:
  assumes "num_iterations mask_mode kv_len bx = 0"
  shows "kernel_pipeline mask_mode kv_len bx ksi adv =
     \<lparr>sK_row = 0, sV_col = 0, qk_tiles = [0], pv_tiles = [0], K_scale_reads = [ksi + (0 - 1) * adv]\<rparr>"
  unfolding kernel_pipeline_def Let_def assms
  by (simp add: loop_iters_eq epilogue_def prologue_def)

lemma div_ceil_unat:
  assumes "N \<noteq> 0"
  shows "unat (div_ceil M N) = (unat M + (unat N - 1)) div unat N"
proof -
  have n: "0 < unat N" using assms by (simp add: unat_gt_0)
  have d: "unat (M div N) = unat M div unat N" by (simp add: unat_div)
  have m: "unat (M mod N) = unat M mod unat N" by (simp add: unat_mod)
  have z: "(M mod N = 0) = (unat M mod unat N = 0)"
    using m unat_0_iff [of "M mod N"] by simp
  show ?thesis
  proof (cases "M mod N = 0")
    case True
    then show ?thesis
      unfolding div_ceil_def ceil_div [OF n] using d z by simp
  next
    case False
    then have "unat M mod unat N \<noteq> 0" using z by simp
    then have "unat N \<noteq> 1" by auto
    then have "2 \<le> unat N" using n by linarith
    then have "unat M div unat N \<le> unat M div 2"
      by (simp add: div_le_mono2)
    then have b: "unat M div unat N + 1 < 4294967296" using unat_lt_2p32 [of M] by linarith
    have s: "unat (M div N + 1) = unat M div unat N + 1"
      using b d by (simp add: unat_word_ariths)
    show ?thesis
      unfolding div_ceil_def ceil_div [OF n] using False s z by simp
  qed
qed

lemma div_ceil_64: "unat (div_ceil M CTA_Q) = (unat M + 63) div 64"
  using div_ceil_unat [of CTA_Q M] by (simp add: CTA_Q_def)








lemma unat_of_nat_u32: "n < 4294967296 \<Longrightarrow> unat (of_nat n :: u32) = n"
  by (simp add: unat_of_nat)










section \<open>Masking of the final tile: proofs\<close>

lemma set3_same: "set3 A i j k (A i j k) = A"
  by (intro ext) (simp add: set3_apply)

lemma apply_mask_apply:
  "apply_mask mask_mode kv_len bx tid n S fq fk k =
     (if fq < num_tiles_q \<and> fk < num_tiles_k \<and> k < 8 \<and>
         is_out_of_bounds mask_mode kv_len (q_idx bx tid fq k) (k_idx n tid fk k)
      then FVal (- 5000000) else S fq fk k)"
proof -
  have body: "(\<lambda>fq fk k RS.
          if is_out_of_bounds mask_mode kv_len (q_idx bx tid fq k) (k_idx n tid fk k)
          then set3 RS fq fk k (FVal (- 5000000)) else RS) =
        (\<lambda>fq fk k RS. set3 RS fq fk k
          (if is_out_of_bounds mask_mode kv_len (q_idx bx tid fq k) (k_idx n tid fk k)
           then FVal (- 5000000) else RS fq fk k))"
    by (intro ext) (simp add: set3_same)
  show ?thesis
    using for3_set3 [where g = "\<lambda>fq fk k v.
          if is_out_of_bounds mask_mode kv_len (q_idx bx tid fq k) (k_idx n tid fk k)
          then FVal (- 5000000) else v" and A = S
        and a = num_tiles_q and b = num_tiles_k and c = 8 and i' = fq and j' = fk and k' = k]
    by (simp add: apply_mask_def body)
qed

lemma dequantize_apply:
  "dequantize i2f fmul s RS A fq fk k =
     (if fq < num_tiles_q \<and> fk < num_tiles_k \<and> k < 8 then fmul (i2f (RS fq fk k)) s else A fq fk k)"
  unfolding dequantize_def
  using for3_set3 [where g = "\<lambda>fq fk k _. fmul (i2f (RS fq fk k)) s" and A = A
      and a = num_tiles_q and b = num_tiles_k and c = 8 and i' = fq and j' = fk and k' = k]
  by simp

text \<open>
  C2. In the final key/value tile, for every score \<open>RS_f32[fq][fk][k]\<close> a thread holds,
  with \<open>k_idx\<close> and \<open>q_idx\<close> the key and query positions the kernel computes for it:
  under causal masking the score is replaced by \<open>-5000000.0\<close> exactly when
  \<open>k_idx > q_idx\<close> or \<open>k_idx \<ge> kv_len\<close>, without causal masking exactly when
  \<open>k_idx \<ge> kv_len\<close>, and every other score keeps its value; the softmax update of
  the final tile consumes the tile after this replacement.
\<close>

theorem final_tile_masking:
  "(\<forall>fq<num_tiles_q. \<forall>fk<num_tiles_k. \<forall>k<8.
      apply_mask kCausal kv_len bx tid n S fq fk k =
        (if k_idx n tid fk k > q_idx bx tid fq k \<or> k_idx n tid fk k \<ge> kv_len
         then FVal (- 5000000) else S fq fk k) \<and>
      apply_mask kNone kv_len bx tid n S fq fk k =
        (if k_idx n tid fk k \<ge> kv_len then FVal (- 5000000) else S fq fk k)) \<and>
   epilogue_softmax update_mdo i2f fmul mask_mode kv_len bx tid n dequant_scale sm_scale RS A r =
     update_mdo (apply_mask mask_mode kv_len bx tid n (dequantize i2f fmul dequant_scale RS A)) r sm_scale"
  by (simp add: apply_mask_apply is_out_of_bounds_def epilogue_softmax_def)


theorem final_tile_masking_witness:
  "apply_mask kCausal 200 1 127 1 (\<lambda>_ _ _. FVal 1) 0 7 4 = FVal (- 5000000) \<and>
   apply_mask kCausal 200 1 127 1 (\<lambda>_ _ _. FVal 1) 0 7 6 = FVal 1 \<and>
   apply_mask kNone 200 1 127 2 (\<lambda>_ _ _. FVal 1) 0 4 4 = FVal (- 5000000) \<and>
   apply_mask kNone 200 1 127 2 (\<lambda>_ _ _. FVal 1) 0 4 0 = FVal 1"
proof -
  have q: "(0::nat) < num_tiles_q" by (simp add: num_tiles_q_1)
  have k7: "(7::nat) < num_tiles_k" and k4: "(4::nat) < num_tiles_k" by (simp_all add: num_tiles_k_8)
  note t = final_tile_masking [of 200 1 127 _ "\<lambda>_ _ _. FVal 1", THEN conjunct1, rule_format, OF q]
  have a: "q_idx 1 127 0 4 = 119" "q_idx 1 127 0 6 = 127" "k_idx 1 127 7 4 = 126" "k_idx 1 127 7 6 = 126"
     "k_idx 2 127 4 4 = 206" "k_idx 2 127 4 0 = 198"
    by (simp_all add: q_idx_def k_idx_def Q_idx_lane_base_def warp_idx_def lane_id_def CTA_Q_def CTA_K_def)
  show ?thesis
    using t [of 7 4 1, OF k7] t [of 7 6 1, OF k7] t [of 4 4 2, OF k4] t [of 4 0 2, OF k4]
    by (simp add: a)
qed

section \<open>Host entry points: proofs\<close>

lemmas host_defs = attn_inst_buf_def checks_before_head_count_def dispatch_and_launch_def
  tensor_checks_def cuda_tensor_def CHECK_CUDA_def
  CHECK_LASTDIM_CONTIGUOUS_def CHECK_CONTIGUOUS_def CHECK_DTYPE_def CHECK_DIMS_def CHECK_SHAPE_def
  seq_axis_def head_axis_def layout_shape_def c_rem_def c_div_def div_ceil_int_def example_gran_of_def
  batch_size_of_def head_dim_of_def qo_len_of_def kv_len_of_def num_qo_heads_of_def num_kv_heads_of_def


lemma if_Inl_eq_Inl: "((if c then Inl e else k) = Inl e') = (if c then e = e' else k = Inl e')"
  by simp

lemma if_Some_eq_None: "((if c then Some e else k) = None) = (\<not> c \<and> k = None)"
  by simp

lemma if_Some_eq_Some: "((if c then Some e else k) = Some e') = (if c then e = e' else k = Some e')"
  by simp


lemma dispatch_and_launch_not_invalid_argument:
  "dispatch_and_launch fuse nd g tm a lse \<noteq> Inl (InvalidArgument p q)"
proof (cases "g (qk_quant_gran_arg a)")
  case None
  then show ?thesis unfolding dispatch_and_launch_def
    by (simp add: if_Inl_eq_Inl)
next
  case (Some gran)
  then show ?thesis unfolding dispatch_and_launch_def
    by (cases gran) (simp_all add: if_Inl_eq_Inl)
qed

lemma checks_before_head_count_not_invalid_argument:
  "checks_before_head_count fuse nd a \<noteq> Some (InvalidArgument p q)"
  unfolding checks_before_head_count_def by (simp add: if_Some_eq_Some)


lemma head_count_error_iff:
  "attn_inst_buf fuse nd g tm a = Inl (InvalidArgument p q) \<longleftrightarrow>
     checks_before_head_count fuse nd a = None \<and> p = num_qo_heads_of a \<and> q = num_kv_heads_of a \<and>
     q \<noteq> 0 \<and> c_rem p q \<noteq> 0"
proof (cases "checks_before_head_count fuse nd a")
  case None
  then show ?thesis
    unfolding attn_inst_buf_def
    using dispatch_and_launch_not_invalid_argument [of fuse nd g tm a _ p q]
    by (auto simp add: if_Inl_eq_Inl)
next
  case (Some e)
  then show ?thesis
    unfolding attn_inst_buf_def
    using checks_before_head_count_not_invalid_argument [of fuse nd a p q]
    by auto
qed


text \<open>
  C9 fails for a call whose key tensor has no heads: with \<open>num_kv_heads = 0\<close> and
  \<open>num_qo_heads = 2\<close> (not a multiple of zero) the head-count check takes the remainder
  by zero, in both entry points, instead of throwing \<open>std::invalid_argument\<close>.
\<close>

theorem head_count_check_zero_kv_heads:
  "qk_int8_sv_f8_accum_f32_attn_inst_buf nd example_gran_of tm zero_kv_heads_call = Inl DivisionByZero \<and>
   qk_int8_sv_f8_accum_f32_fuse_v_scale_attn_inst_buf nd example_gran_of tm zero_kv_heads_call =
     Inl DivisionByZero \<and>
   num_qo_heads_of zero_kv_heads_call = 2 \<and> num_kv_heads_of zero_kv_heads_call = 0"
  by (simp add: qk_int8_sv_f8_accum_f32_attn_inst_buf_def
      qk_int8_sv_f8_accum_f32_fuse_v_scale_attn_inst_buf_def host_defs
      zero_kv_heads_call_def example_call_def)

section \<open>Key-scale reads: proofs\<close>

lemma zero_kv_len_call_launch:
  "attn_inst_buf f nd example_gran_of True zero_kv_len_call =
  Inr \<lparr>lse_sizes = [0], lse_dtype = kFloat32,
       launched = \<lparr>arg_head_dim = 64, arg_mask_mode = kNone, arg_gran = kPerWarp,
         arg_return_lse = False, arg_fuse_v_scale = f, arg_dtype_out = kHalf,
         gridDim_x = 2, gridDim_y = 2, gridDim_z = 1,
         arg_stride_bz_o = 12800, arg_stride_h_o = 64, arg_stride_seq_o = 128,
         arg_qo_len = 100, arg_kv_len = 0, arg_num_kv_groups = 2, arg_sm_scale = FVal (1 / 8)\<rparr>\<rparr>"
  by (simp add: host_defs zero_kv_len_call_def example_call_def)

text \<open>
  C4 fails for \<open>kv_len = 0\<close>. The call \<open>zero_kv_len_call\<close> passes every check of the
  entry point and is launched with \<open>kv_len = 0\<close>; \<open>num_iterations\<close> is then 0, the
  final tile computes \<open>(num_iterations - 1) * k_scale_advance_offset\<close> in unsigned
  arithmetic, and thread 0 of block \<open>(0, 0, 0)\<close> reads \<open>K_scale[4294967295]\<close> of a
  key-scale tensor that has no elements.
\<close>

theorem K_scale_read_out_of_bounds_at_kv_len_0:
  "\<exists>r. qk_int8_sv_f8_accum_f32_attn_inst_buf nd example_gran_of True zero_kv_len_call = Inr r \<and>
       arg_kv_len (launched r) = 0 \<and>
       thread_K_scale_reads (launched r) 0 0 0 0 = [4294967295] \<and>
       numel (key_scale zero_kv_len_call) = 0"
proof -
  have n: "num_iterations kNone 0 0 = 0"
    by (simp add: num_iterations_def div_ceil_def CTA_K_def)
  show ?thesis
    unfolding qk_int8_sv_f8_accum_f32_attn_inst_buf_def zero_kv_len_call_launch
    by (simp add: thread_K_scale_reads_def kernel_pipeline_zero [OF n] k_scale_idx_def
        k_scale_advance_offset_def div_ceil_def CTA_K_def lane_id_def numel_def
        zero_kv_len_call_def example_call_def cuda_tensor_def)
qed

section \<open>Write lists\<close>

lemma apply_writes_Nil: "apply_writes [] mem = mem"
  by (simp add: apply_writes_def)

lemma apply_writes_snoc: "apply_writes (ws @ [(p, v)]) mem = (apply_writes ws mem)(p := v)"
  by (simp add: apply_writes_def)

lemma apply_writes_cases:
  "(apply_writes ws mem p = mem p \<and> p \<notin> fst ` set ws) \<or> (p, apply_writes ws mem p) \<in> set ws"
proof (induction ws rule: rev_induct)
  case Nil
  show ?case by (simp add: apply_writes_Nil)
next
  case (snoc w ws)
  obtain q u where w: "w = (q, u)" by (cases w)
  show ?case
  proof (cases "q = p")
    case True
    then show ?thesis unfolding w apply_writes_snoc by simp
  next
    case False
    then have e: "apply_writes (ws @ [(q, u)]) mem p = apply_writes ws mem p"
      unfolding apply_writes_snoc by simp
    from snoc show ?thesis unfolding w e using False by force
  qed
qed

lemma apply_writes_frame:
  "p \<notin> fst ` set ws \<Longrightarrow> apply_writes ws mem p = mem p"
  using apply_writes_cases [of ws mem p] by force



section \<open>Thread indices without wrap-around\<close>

lemma unat_add_nowrap: "unat a + unat b < 4294967296 \<Longrightarrow> unat (a + b :: u32) = unat a + unat b"
  by (simp add: unat_word_ariths)

lemma unat_mult_nowrap: "unat a * unat b < 4294967296 \<Longrightarrow> unat (a * b :: u32) = unat a * unat b"
  by (simp add: unat_word_ariths)

lemma unat_of_nat_small: "n < 4294967296 \<Longrightarrow> unat (of_nat n :: u32) = n"
  by (simp add: unat_of_nat)

lemma unat_lane_id: "unat (lane_id tid) = unat tid mod 32"
  by (simp add: lane_id_def unat_mod)

lemma unat_warp_idx: "unat (warp_idx tid) = (unat tid mod 128) div 32"
  by (simp add: warp_idx_def unat_mod unat_div)

lemma unat_lane_div4: "unat (lane_id tid div 4) = (unat tid mod 32) div 4"
  by (simp add: unat_div unat_lane_id)

lemma unat_lane_mod4: "unat (lane_id tid mod 4) = (unat tid mod 32) mod 4"
  by (simp add: unat_mod unat_lane_id)

lemma unat_Q_idx_lane_base:
  assumes "unat bx < 33554432"
  shows "unat (Q_idx_lane_base bx tid) =
         unat bx * 64 + (unat tid mod 128) div 32 * 16 + (unat tid mod 32) div 4"
proof -
  have w: "(unat tid mod 128) div 32 < 4" by simp
  have l: "(unat tid mod 32) div 4 < 8" by simp
  have a: "unat (bx * CTA_Q) = unat bx * 64"
    using assms by (simp add: CTA_Q_def unat_mult_nowrap)
  have b: "unat (warp_idx tid * 16) = (unat tid mod 128) div 32 * 16"
    using w by (simp add: unat_mult_nowrap unat_warp_idx)
  have "unat (bx * CTA_Q) + unat (warp_idx tid * 16) < 4294967296"
    unfolding a b using assms w by linarith
  from unat_add_nowrap [OF this]
  have c: "unat (bx * CTA_Q + warp_idx tid * 16) = unat bx * 64 + (unat tid mod 128) div 32 * 16"
    unfolding a b .
  have "unat (bx * CTA_Q + warp_idx tid * 16) + unat (lane_id tid div 4) < 4294967296"
    unfolding c unat_lane_div4 using assms w l by linarith
  from unat_add_nowrap [OF this]
  show ?thesis
    unfolding Q_idx_lane_base_def c unat_lane_div4 .
qed



section \<open>Rows, columns and threads in mixed radix\<close>

lemma radix_div: "y < n \<Longrightarrow> (n * x + y) div n = (x::nat)"
  by simp

lemma radix_mod: "y < n \<Longrightarrow> (n * x + y) mod n = (y::nat)"
  by simp

lemma row_decode:
  fixes x w g j :: nat
  assumes "w < 4" "g < 8" "j < 2"
  shows "(64 * x + 16 * w + 8 * j + g) div 64 = x \<and>
         ((64 * x + 16 * w + 8 * j + g) mod 64) div 16 = w \<and>
         (64 * x + 16 * w + 8 * j + g) mod 8 = g \<and>
         ((64 * x + 16 * w + 8 * j + g) mod 16) div 8 = j"
proof -
  define i where "i = 64 * x + 16 * w + 8 * j + g"
  have a: "i = 64 * x + (16 * w + 8 * j + g)" by (simp add: i_def)
  have a': "16 * w + 8 * j + g < 64" using assms by linarith
  have b: "16 * w + 8 * j + g = 16 * w + (8 * j + g)" by simp
  have b': "8 * j + g < 16" using assms by linarith
  have c: "i = 8 * (8 * x + 2 * w + j) + g" by (simp add: i_def)
  have d: "i = 16 * (4 * x + w) + (8 * j + g)" by (simp add: i_def)
  have 1: "i div 64 = x" unfolding a using a' by (rule radix_div)
  have m: "i mod 64 = 16 * w + 8 * j + g" unfolding a using a' by (rule radix_mod)
  have 2: "(i mod 64) div 16 = w" unfolding m b using b' by (rule radix_div)
  have 3: "i mod 8 = g" unfolding c using assms(2) by (rule radix_mod)
  have n: "i mod 16 = 8 * j + g" unfolding d using b' by (rule radix_mod)
  have 4: "(i mod 16) div 8 = j" unfolding n using assms(2) by (rule radix_div)
  show ?thesis using 1 2 3 4 unfolding i_def by simp
qed

lemma row_encode:
  fixes i :: nat
  shows "64 * (i div 64) + 16 * ((i mod 64) div 16) + 8 * ((i mod 16) div 8) + i mod 8 = i"
proof -
  have a: "i = 64 * (i div 64) + i mod 64" by simp
  have b: "i mod 64 = 16 * ((i mod 64) div 16) + (i mod 64) mod 16" by simp
  have c: "(i mod 64) mod 16 = i mod 16" by (simp add: mod_mod_cancel)
  have d: "i mod 16 = 8 * ((i mod 16) div 8) + (i mod 16) mod 8" by simp
  have e: "(i mod 16) mod 8 = i mod 8" by (simp add: mod_mod_cancel)
  show ?thesis using a b c d e by linarith
qed

lemma col_decode:
  fixes fv hc jj bit :: nat
  assumes "hc < 2" "jj < 4" "bit < 2"
  shows "(16 * fv + 8 * hc + 2 * jj + bit) div 16 = fv \<and>
         ((16 * fv + 8 * hc + 2 * jj + bit) mod 16) div 8 = hc \<and>
         ((16 * fv + 8 * hc + 2 * jj + bit) mod 8) div 2 = jj \<and>
         (16 * fv + 8 * hc + 2 * jj + bit) mod 2 = bit"
proof -
  define c where "c = 16 * fv + 8 * hc + 2 * jj + bit"
  have a: "c = 16 * fv + (8 * hc + 2 * jj + bit)" by (simp add: c_def)
  have a': "8 * hc + 2 * jj + bit < 16" using assms by linarith
  have b: "8 * hc + 2 * jj + bit = 8 * hc + (2 * jj + bit)" by simp
  have b': "2 * jj + bit < 8" using assms by linarith
  have d: "c = 8 * (2 * fv + hc) + (2 * jj + bit)" by (simp add: c_def)
  have e: "c = 2 * (8 * fv + 4 * hc + jj) + bit" by (simp add: c_def)
  have 1: "c div 16 = fv" unfolding a using a' by (rule radix_div)
  have m: "c mod 16 = 8 * hc + 2 * jj + bit" unfolding a using a' by (rule radix_mod)
  have 2: "(c mod 16) div 8 = hc" unfolding m b using b' by (rule radix_div)
  have n: "c mod 8 = 2 * jj + bit" unfolding d using b' by (rule radix_mod)
  have 3: "(c mod 8) div 2 = jj" unfolding n using assms(3) by (rule radix_div)
  have 4: "c mod 2 = bit" unfolding e using assms(3) by (rule radix_mod)
  show ?thesis using 1 2 3 4 unfolding c_def by simp
qed

lemma col_encode:
  fixes c :: nat
  shows "16 * (c div 16) + 8 * ((c mod 16) div 8) + 2 * ((c mod 8) div 2) + c mod 2 = c"
proof -
  have a: "c = 16 * (c div 16) + c mod 16" by simp
  have b: "c mod 16 = 8 * ((c mod 16) div 8) + (c mod 16) mod 8" by simp
  have b': "(c mod 16) mod 8 = c mod 8" by (simp add: mod_mod_cancel)
  have d: "c mod 8 = 2 * ((c mod 8) div 2) + (c mod 8) mod 2" by simp
  have d': "(c mod 8) mod 2 = c mod 2" by (simp add: mod_mod_cancel)
  show ?thesis using a b b' d d' by linarith
qed

lemma tid_decode:
  fixes w g j :: nat
  assumes "w < 4" "g < 8" "j < 4"
  shows "(32 * w + 4 * g + j) div 32 = w \<and> ((32 * w + 4 * g + j) mod 32) div 4 = g \<and>
         (32 * w + 4 * g + j) mod 4 = j \<and> 32 * w + 4 * g + j < 128"
proof -
  define t where "t = 32 * w + 4 * g + j"
  have a: "t = 32 * w + (4 * g + j)" by (simp add: t_def)
  have a': "4 * g + j < 32" using assms by linarith
  have e: "t = 4 * (8 * w + g) + j" by (simp add: t_def)
  have 1: "t div 32 = w" unfolding a using a' by (rule radix_div)
  have m: "t mod 32 = 4 * g + j" unfolding a using a' by (rule radix_mod)
  have 2: "(t mod 32) div 4 = g" unfolding m using assms(3) by (rule radix_div)
  have 3: "t mod 4 = j" unfolding e using assms(3) by (rule radix_mod)
  have 4: "t < 128" unfolding t_def using assms by linarith
  show ?thesis using 1 2 3 4 unfolding t_def by simp
qed

lemma tid_encode:
  fixes t :: nat
  shows "32 * (t div 32) + 4 * ((t mod 32) div 4) + t mod 4 = t"
proof -
  have a: "t = 32 * (t div 32) + t mod 32" by simp
  have b: "t mod 32 = 4 * ((t mod 32) div 4) + (t mod 32) mod 4" by simp
  have c: "(t mod 32) mod 4 = t mod 4" by (simp add: mod_mod_cancel)
  show ?thesis using a b c by linarith
qed

section \<open>The log-sum-exp output\<close>

lemma in_grid_threads:
  "(bi, hi, xi, ti) \<in> set (grid_threads L) \<longleftrightarrow>
     (\<exists>b h x t. bi = of_nat b \<and> hi = of_nat h \<and> xi = of_nat x \<and> ti = of_nat t \<and>
        b < unat (gridDim_z L) \<and> h < unat (gridDim_y L) \<and> x < unat (gridDim_x L) \<and> t < 128)"
proof
  assume "(bi, hi, xi, ti) \<in> set (grid_threads L)"
  then show "\<exists>b h x t. bi = of_nat b \<and> hi = of_nat h \<and> xi = of_nat x \<and> ti = of_nat t \<and>
        b < unat (gridDim_z L) \<and> h < unat (gridDim_y L) \<and> x < unat (gridDim_x L) \<and> t < 128"
    unfolding grid_threads_def NUM_THREADS_def by fastforce
next
  assume "\<exists>b h x t. bi = of_nat b \<and> hi = of_nat h \<and> xi = of_nat x \<and> ti = of_nat t \<and>
        b < unat (gridDim_z L) \<and> h < unat (gridDim_y L) \<and> x < unat (gridDim_x L) \<and> t < 128"
  then obtain b h x t where "bi = of_nat b" "hi = of_nat h" "xi = of_nat x" "ti = of_nat t"
    "b < unat (gridDim_z L)" "h < unat (gridDim_y L)" "x < unat (gridDim_x L)" "t < 128"
    by blast
  then show "(bi, hi, xi, ti) \<in> set (grid_threads L)"
    unfolding grid_threads_def NUM_THREADS_def
    apply simp
    apply (rule bexI [where x = b])
     apply (rule bexI [where x = h])
      apply (rule bexI [where x = x])
       apply (rule image_eqI [where x = t])
        apply simp_all
    done
qed


lemma grid_x_bound:
  assumes "grid_ok L" and "x < unat (gridDim_x L)"
  shows "x < 33554432"
proof -
  have "unat (gridDim_x L) = (unat (arg_qo_len L) + 63) div 64"
    using assms(1) by (simp add: grid_ok_def div_ceil_64)
  moreover have "(unat (arg_qo_len L) + 63) div 64 \<le> (2147483647 + 63) div 64"
    using assms(1) by (intro div_le_mono) (simp add: grid_ok_def)
  ultimately show ?thesis using assms(2) by simp
qed



lemma row_tile_bound:
  fixes i Q :: nat
  assumes "i < Q"
  shows "i div 64 < (Q + 63) div 64"
proof -
  have "i div 64 * 64 \<le> i" by simp
  moreover have "Q + 63 < ((Q + 63) div 64 + 1) * 64"
    using dividend_less_div_times [of 64 "Q + 63"] by simp
  ultimately have "i div 64 * 64 < (Q + 63) div 64 * 64" using assms by linarith
  then show ?thesis by simp
qed














section \<open>The write-back of the output tile\<close>


lemma ex_less_2: "(\<exists>n<2. P n) \<longleftrightarrow> P 0 \<or> P (1::nat)"
proof
  assume "\<exists>n<2. P n"
  then obtain n where "n < 2" "P n" by blast
  then have "n = 0 \<or> n = 1" by linarith
  then show "P 0 \<or> P 1" using \<open>P n\<close> by blast
next
  assume "P 0 \<or> P 1"
  then show "\<exists>n<2. P n"
  proof
    assume "P 0"
    then show ?thesis by (intro exI [of _ 0]) simp
  next
    assume "P 1"
    then show ?thesis by (intro exI [of _ 1]) simp
  qed
qed

lemma num_tiles_v_cases:
  assumes "O_fits L"
  shows "unat (arg_head_dim L div 16) = 4 \<or> unat (arg_head_dim L div 16) = 8"
  using assms unfolding O_fits_def by auto

lemma thread_O_writes_explicit:
  assumes x: "x < 33554432" and t: "t < 128"
    and fits: "O_fits L" and b: "b < unat (gridDim_z L)" and h: "h < unat (gridDim_y L)"
  shows "thread_O_writes rn L (of_nat b) (of_nat h) (of_nat x) (of_nat t) RO =
     concat (map (\<lambda>fv.
       (if 64 * x + 16 * (t div 32) + (t mod 32) div 4 < unat (arg_qo_len L)
        then [(O_index L b h (64 * x + 16 * (t div 32) + (t mod 32) div 4) (16 * fv + 2 * (t mod 4)),
                 rn (RO 0 fv 0)),
              (O_index L b h (64 * x + 16 * (t div 32) + (t mod 32) div 4) (16 * fv + 2 * (t mod 4) + 1),
                 rn (RO 0 fv 1)),
              (O_index L b h (64 * x + 16 * (t div 32) + (t mod 32) div 4) (16 * fv + 8 + 2 * (t mod 4)),
                 rn (RO 0 fv 4)),
              (O_index L b h (64 * x + 16 * (t div 32) + (t mod 32) div 4) (16 * fv + 8 + 2 * (t mod 4) + 1),
                 rn (RO 0 fv 5))]
        else [])
       @
       (if 64 * x + 16 * (t div 32) + (t mod 32) div 4 + 8 < unat (arg_qo_len L)
        then [(O_index L b h (64 * x + 16 * (t div 32) + (t mod 32) div 4 + 8) (16 * fv + 2 * (t mod 4)),
                 rn (RO 0 fv 2)),
              (O_index L b h (64 * x + 16 * (t div 32) + (t mod 32) div 4 + 8) (16 * fv + 2 * (t mod 4) + 1),
                 rn (RO 0 fv 3)),
              (O_index L b h (64 * x + 16 * (t div 32) + (t mod 32) div 4 + 8) (16 * fv + 8 + 2 * (t mod 4)),
                 rn (RO 0 fv 6)),
              (O_index L b h (64 * x + 16 * (t div 32) + (t mod 32) div 4 + 8) (16 * fv + 8 + 2 * (t mod 4) + 1),
                 rn (RO 0 fv 7))]
        else []))
       [0..<unat (arg_head_dim L div 16)])"
proof -
  define Q where "Q = unat (arg_qo_len L)"
  define sb where "sb = unat (arg_stride_bz_o L)"
  define sh where "sh = unat (arg_stride_h_o L)"
  define ss where "ss = unat (arg_stride_seq_o L)"
  define row where "row = 64 * x + 16 * (t div 32) + (t mod 32) div 4"
  have F: "unat (gridDim_z L) * sb < 4294967296" "unat (gridDim_y L) * sh < 4294967296"
    "Q * ss < 4294967296"
    using fits by (simp_all add: O_fits_def sb_def sh_def ss_def Q_def)
  have ut: "unat (of_nat t :: u32) = t" using t by (simp add: unat_of_nat_small)
  have ux: "unat (of_nat x :: u32) = x" using x by (simp add: unat_of_nat_small)
  have ub: "unat (of_nat b :: u32) = b"
    using b unat_lt_2p32 [of "gridDim_z L"] by (simp add: unat_of_nat_small)
  have uh: "unat (of_nat h :: u32) = h"
    using h unat_lt_2p32 [of "gridDim_y L"] by (simp add: unat_of_nat_small)
  have tm: "(t mod 32) mod 4 = t mod 4" by (simp add: mod_mod_cancel)
  have tw: "(t mod 128) div 32 = t div 32" using t by simp
  have w4: "t div 32 < 4" using t by simp
  have g8: "(t mod 32) div 4 < 8" by simp
  have j4: "t mod 4 < 4" by simp
  have rb: "row < 2147483648 + 64" unfolding row_def using x w4 g8 by linarith
  have base: "unat (Q_idx_lane_base (of_nat x) (of_nat t)) = row"
    using unat_Q_idx_lane_base [of "of_nat x" "of_nat t"] x by (simp add: ux ut tw row_def)
  have g1: "(Q_idx_lane_base (of_nat x) (of_nat t) < arg_qo_len L) = (row < Q)"
    by (simp add: word_less_nat_alt base Q_def)
  have "unat (Q_idx_lane_base (of_nat x) (of_nat t)) + unat (8 :: u32) < 4294967296"
    unfolding base using rb by simp
  from unat_add_nowrap [OF this]
  have base8: "unat (Q_idx_lane_base (of_nat x) (of_nat t) + 8) = row + 8"
    unfolding base by simp
  have g2: "(Q_idx_lane_base (of_nat x) (of_nat t) + 8 < arg_qo_len L) = (row + 8 < Q)"
    by (simp add: word_less_nat_alt base8 Q_def)
  have g2': "(8 + Q_idx_lane_base (of_nat x) (of_nat t) < arg_qo_len L) = (row + 8 < Q)"
    using g2 by (simp add: add.commute)
  have "b * sb \<le> unat (gridDim_z L) * sb" using b by (intro mult_le_mono1) simp
  then have "unat (of_nat b :: u32) * unat (arg_stride_bz_o L) < 4294967296"
    unfolding ub sb_def [symmetric] using F(1) by linarith
  from unat_mult_nowrap [OF this]
  have a1: "unat (of_nat b * arg_stride_bz_o L) = b * sb" by (simp add: ub sb_def)
  have "h * sh \<le> unat (gridDim_y L) * sh" using h by (intro mult_le_mono1) simp
  then have "unat (of_nat h :: u32) * unat (arg_stride_h_o L) < 4294967296"
    unfolding uh sh_def [symmetric] using F(2) by linarith
  from unat_mult_nowrap [OF this]
  have a2: "unat (of_nat h * arg_stride_h_o L) = h * sh" by (simp add: uh sh_def)
  have a3: "unat ((of_nat x * CTA_Q + warp_idx (of_nat t) * 16 + lane_id (of_nat t) div 4)
                   * arg_stride_seq_o L) = row * ss" if "row < Q"
  proof -
    have "row * ss \<le> Q * ss" using that by (intro mult_le_mono1) simp
    then have "unat (Q_idx_lane_base (of_nat x) (of_nat t)) * unat (arg_stride_seq_o L) < 4294967296"
      unfolding base ss_def [symmetric] using F(3) by linarith
    from unat_mult_nowrap [OF this]
    have "unat (Q_idx_lane_base (of_nat x) (of_nat t) * arg_stride_seq_o L) = row * ss"
      unfolding base ss_def .
    then show ?thesis unfolding Q_idx_lane_base_def .
  qed
  have "unat (lane_id (of_nat t) mod 4) * unat (2 :: u32) < 4294967296"
    unfolding unat_lane_mod4 ut tm using j4 by simp
  from unat_mult_nowrap [OF this]
  have a4: "unat ((lane_id (of_nat t) mod 4) * 2) = 2 * (t mod 4)"
    unfolding unat_lane_mod4 ut tm by simp
  have a5: "unat (8 * arg_stride_seq_o L) = 8 * ss" if "row + 8 < Q"
  proof -
    have "8 * ss \<le> Q * ss" using that by (intro mult_le_mono1) simp
    then have "8 * ss < 4294967296" using F(3) by linarith
    then have "unat (8 :: u32) * unat (arg_stride_seq_o L) < 4294967296"
      unfolding ss_def by simp
    from unat_mult_nowrap [OF this]
    show ?thesis unfolding ss_def by simp
  qed
  have a6: "unat (of_nat fv * 16 :: u32) = 16 * fv" if "fv < unat (arg_head_dim L div 16)" for fv
  proof -
    have "fv < 8" using that num_tiles_v_cases [OF fits] by linarith
    then have "unat (of_nat fv :: u32) * unat (16 :: u32) < 4294967296"
      by (simp add: unat_of_nat_small)
    from unat_mult_nowrap [OF this]
    show ?thesis using \<open>fv < 8\<close> by (simp add: unat_of_nat_small)
  qed
  have p: "O_lane_ptr L (of_nat b) (of_nat h) (of_nat x) (of_nat t) = O_index L b h row (2 * (t mod 4))"
    if "row < Q"
    unfolding O_lane_ptr_def O_index_def a1 a2 a3 [OF that] a4 sb_def sh_def ss_def by simp
  have r8: "O_index L b h row c + ss * 8 = O_index L b h (row + 8) c" for c
    by (simp add: O_index_def ss_def algebra_simps)
  have rc: "O_index L b h r c + d = O_index L b h r (c + d)" for r c d
    by (simp add: O_index_def)
  show ?thesis
  proof (cases "row < Q")
    case False
    then have n8: "\<not> row + 8 < Q" by simp
    show ?thesis
      unfolding thread_O_writes_def num_tiles_q_1 Let_def store2_def
        row_def [symmetric] Q_def [symmetric]
      using False n8 by (simp add: g1 g2)
  next
    case True
    show ?thesis
      unfolding thread_O_writes_def num_tiles_q_1 Let_def store2_def
        row_def [symmetric] Q_def [symmetric]
      using True a5
      by (auto simp add: g1 g2 g2' p [OF True] a6 O_index_def ss_def [symmetric] algebra_simps
          intro!: arg_cong [where f = concat])
  qed
qed


lemma in_kernel_O_writes:
  "(p, v) \<in> set (kernel_O_writes rn L R sched) \<longleftrightarrow>
     (\<exists>b h x t. (b, h, x, t) \<in> set sched \<and>
        (p, v) \<in> set (thread_O_writes rn L b h x t (reg_RO (R b h x t))))"
  unfolding kernel_O_writes_def
  by (simp add: Bex_def)

lemma O_owner_decode:
  "O_owner r c div 32 = (r mod 64) div 16 \<and> (O_owner r c mod 32) div 4 = r mod 8 \<and>
   O_owner r c mod 4 = (c mod 8) div 2 \<and> O_owner r c < 128"
proof -
  have w: "(r mod 64) div 16 < 4" by simp
  have g: "r mod 8 < 8" by simp
  have j: "(c mod 8) div 2 < 4" by simp
  show ?thesis unfolding O_owner_def using tid_decode [OF w g j] .
qed

lemma element_owner:
  fixes x t fv hr hc lo :: nat
  assumes t: "t < 128" and hr: "hr < 2" and hc: "hc < 2" and lo: "lo < 2"
  shows "(64 * x + 16 * (t div 32) + 8 * hr + (t mod 32) div 4) div 64 = x \<and>
         (16 * fv + 8 * hc + 2 * (t mod 4) + lo) div 16 = fv \<and>
         O_owner (64 * x + 16 * (t div 32) + 8 * hr + (t mod 32) div 4)
                 (16 * fv + 8 * hc + 2 * (t mod 4) + lo) = t \<and>
         O_reg (64 * x + 16 * (t div 32) + 8 * hr + (t mod 32) div 4)
               (16 * fv + 8 * hc + 2 * (t mod 4) + lo) = 4 * hc + 2 * hr + lo"
proof -
  have w: "t div 32 < 4" using t by simp
  have g: "(t mod 32) div 4 < 8" by simp
  have j: "t mod 4 < 4" by simp
  note rd = row_decode [OF w g hr, of x]
  note cd = col_decode [OF hc j lo, of fv]
  have "O_owner (64 * x + 16 * (t div 32) + 8 * hr + (t mod 32) div 4)
                 (16 * fv + 8 * hc + 2 * (t mod 4) + lo) =
        32 * (t div 32) + 4 * ((t mod 32) div 4) + t mod 4"
    unfolding O_owner_def using rd cd by simp
  then have o: "O_owner (64 * x + 16 * (t div 32) + 8 * hr + (t mod 32) div 4)
                 (16 * fv + 8 * hc + 2 * (t mod 4) + lo) = t"
    using tid_encode [of t] by simp
  have "O_reg (64 * x + 16 * (t div 32) + 8 * hr + (t mod 32) div 4)
               (16 * fv + 8 * hc + 2 * (t mod 4) + lo) = 4 * hc + 2 * hr + lo"
    unfolding O_reg_def using rd cd by simp
  then show ?thesis using rd cd o by simp
qed

lemma bits3: 
  "(hr, hc, lo) \<in> set [(0,0,0),(0,0,1),(0,1,0),(0,1,1),(1,0,0),(1,0,1),(1,1,0),(1,1,1::nat)]
     \<longleftrightarrow> hr < (2::nat) \<and> hc < (2::nat) \<and> lo < 2"
proof -
  have a: "n < 2 \<longleftrightarrow> n = 0 \<or> n = 1" for n :: nat by linarith
  show ?thesis unfolding a [of hr] a [of hc] a [of lo] by auto
qed

lemma O_row_list:
  fixes row Q :: nat
  shows
   "(if row < Q
        then [(A row (16 * fv + 2 * j), V 0), (A row (16 * fv + 2 * j + 1), V 1),
              (A row (16 * fv + 8 + 2 * j), V 4), (A row (16 * fv + 8 + 2 * j + 1), V 5)]
        else [])
       @
       (if row + 8 < Q
        then [(A (row + 8) (16 * fv + 2 * j), V 2), (A (row + 8) (16 * fv + 2 * j + 1), V 3),
              (A (row + 8) (16 * fv + 8 + 2 * j), V 6), (A (row + 8) (16 * fv + 8 + 2 * j + 1), V 7)]
        else [])
    = map (\<lambda>(hr, hc, lo). (A (row + 8 * hr) (16 * fv + 8 * hc + 2 * j + lo), V (4 * hc + 2 * hr + lo)))
        (filter (\<lambda>(hr, hc, lo). row + 8 * hr < Q)
           [(0,0,0),(0,0,1),(0,1,0),(0,1,1),(1,0,0),(1,0,1),(1,1,0),(1,1,1::nat)])"
  by (simp add: numeral_2_eq_2 [symmetric] numeral_3_eq_3 [symmetric])



lemma map_filter_triples_mem:
  "(p, v) \<in> set (map (\<lambda>(hr, hc, lo). (A hr hc lo, V hr hc lo)) (filter (\<lambda>(hr, hc, lo). G hr) xs)) \<longleftrightarrow>
     (\<exists>hr hc lo. (hr, hc, lo) \<in> set xs \<and> G hr \<and> p = A hr hc lo \<and> v = V hr hc lo)"
  by (induction xs) auto

lemma thread_O_writes_nat:
  assumes x: "x < 33554432" and t: "t < 128"
    and fits: "O_fits L" and b: "b < unat (gridDim_z L)" and h: "h < unat (gridDim_y L)"
  shows "thread_O_writes rn L (of_nat b) (of_nat h) (of_nat x) (of_nat t) RO =
     concat (map (\<lambda>fv.
       map (\<lambda>(hr, hc, lo).
              (O_index L b h (64 * x + 16 * (t div 32) + (t mod 32) div 4 + 8 * hr)
                 (16 * fv + 8 * hc + 2 * (t mod 4) + lo),
               rn (RO 0 fv (4 * hc + 2 * hr + lo))))
         (filter (\<lambda>(hr, hc, lo). 64 * x + 16 * (t div 32) + (t mod 32) div 4 + 8 * hr < unat (arg_qo_len L))
            [(0,0,0),(0,0,1),(0,1,0),(0,1,1),(1,0,0),(1,0,1),(1,1,0),(1,1,1::nat)]))
       [0..<unat (arg_head_dim L div 16)])"
  unfolding thread_O_writes_explicit [OF x t fits b h]
  by (simp only: O_row_list [where A = "O_index L b h" and V = "\<lambda>k. rn (RO 0 _ k)"])


lemma in_concat_map_upt:
  "(e \<in> set (concat (map F [0..<N]))) \<longleftrightarrow> (\<exists>fv. fv < N \<and> e \<in> set (F fv))"
  by auto

lemma thread_O_writes_mem:
  assumes x: "x < 33554432" and t: "t < 128"
    and fits: "O_fits L" and b: "b < unat (gridDim_z L)" and h: "h < unat (gridDim_y L)"
  shows "(p, v) \<in> set (thread_O_writes rn L (of_nat b) (of_nat h) (of_nat x) (of_nat t) RO) \<longleftrightarrow>
     (\<exists>fv hr hc lo. fv < unat (arg_head_dim L div 16) \<and> hr < 2 \<and> hc < 2 \<and> lo < 2 \<and>
        64 * x + 16 * (t div 32) + (t mod 32) div 4 + 8 * hr < unat (arg_qo_len L) \<and>
        p = O_index L b h (64 * x + 16 * (t div 32) + (t mod 32) div 4 + 8 * hr)
              (16 * fv + 8 * hc + 2 * (t mod 4) + lo) \<and>
        v = rn (RO 0 fv (4 * hc + 2 * hr + lo)))"
  unfolding thread_O_writes_nat [OF x t fits b h] in_concat_map_upt map_filter_triples_mem bits3
  by blast


lemma head_dim_tiles:
  assumes "O_fits L"
  shows "16 * unat (arg_head_dim L div 16) = unat (arg_head_dim L)"
  using assms unfolding O_fits_def by auto

lemma kernel_O_writes_iff:
  assumes ok: "grid_ok L" and fits: "O_fits L" and sched: "set sched = set (grid_threads L)"
  shows "(p, v) \<in> set (kernel_O_writes rn L R sched) \<longleftrightarrow>
     (\<exists>b h r c. b < unat (gridDim_z L) \<and> h < unat (gridDim_y L) \<and> r < unat (arg_qo_len L) \<and>
        c < unat (arg_head_dim L) \<and> p = O_index L b h r c \<and> v = O_value rn R b h r c)"
proof
  assume "(p, v) \<in> set (kernel_O_writes rn L R sched)"
  then obtain bi hi xi ti where m: "(bi, hi, xi, ti) \<in> set (grid_threads L)"
    and w: "(p, v) \<in> set (thread_O_writes rn L bi hi xi ti (reg_RO (R bi hi xi ti)))"
    unfolding in_kernel_O_writes sched by blast
  from m obtain b h x t where c: "bi = of_nat b" "hi = of_nat h" "xi = of_nat x" "ti = of_nat t"
    and bd: "b < unat (gridDim_z L)" "h < unat (gridDim_y L)" "x < unat (gridDim_x L)" "t < 128"
    unfolding in_grid_threads by blast
  from w obtain fv hr hc lo where f: "fv < unat (arg_head_dim L div 16)" "hr < 2" "hc < 2" "lo < 2"
    and g: "64 * x + 16 * (t div 32) + (t mod 32) div 4 + 8 * hr < unat (arg_qo_len L)"
    and pv: "p = O_index L b h (64 * x + 16 * (t div 32) + (t mod 32) div 4 + 8 * hr)
                   (16 * fv + 8 * hc + 2 * (t mod 4) + lo)"
      "v = rn (reg_RO (R (of_nat b) (of_nat h) (of_nat x) (of_nat t)) 0 fv (4 * hc + 2 * hr + lo))"
    unfolding c thread_O_writes_mem [OF grid_x_bound [OF ok bd(3)] bd(4) fits bd(1) bd(2)] by blast
  define r where "r = 64 * x + 16 * (t div 32) + 8 * hr + (t mod 32) div 4"
  define cc where "cc = 16 * fv + 8 * hc + 2 * (t mod 4) + lo"
  have re: "64 * x + 16 * (t div 32) + (t mod 32) div 4 + 8 * hr = r" by (simp add: r_def)
  note o = element_owner [OF bd(4) f(2,3,4), of x fv, folded r_def cc_def]
  have cb: "cc < unat (arg_head_dim L)"
    using f head_dim_tiles [OF fits] unfolding cc_def by linarith
  have "v = O_value rn R b h r cc"
    unfolding pv(2) O_value_def using o by simp
  then show "\<exists>b h r c. b < unat (gridDim_z L) \<and> h < unat (gridDim_y L) \<and> r < unat (arg_qo_len L) \<and>
        c < unat (arg_head_dim L) \<and> p = O_index L b h r c \<and> v = O_value rn R b h r c"
    using bd(1,2) g pv(1) cb unfolding re cc_def [symmetric] by blast
next
  assume "\<exists>b h r c. b < unat (gridDim_z L) \<and> h < unat (gridDim_y L) \<and> r < unat (arg_qo_len L) \<and>
        c < unat (arg_head_dim L) \<and> p = O_index L b h r c \<and> v = O_value rn R b h r c"
  then obtain b h r c where bd: "b < unat (gridDim_z L)" "h < unat (gridDim_y L)"
      "r < unat (arg_qo_len L)" "c < unat (arg_head_dim L)"
    and pv: "p = O_index L b h r c" "v = O_value rn R b h r c"
    by blast
  define x where "x = r div 64"
  define t where "t = O_owner r c"
  define fv where "fv = c div 16"
  define hr where "hr = (r mod 16) div 8"
  define hc where "hc = (c mod 16) div 8"
  define lo where "lo = c mod 2"
  have "unat (gridDim_x L) = (unat (arg_qo_len L) + 63) div 64"
    using ok by (simp add: grid_ok_def div_ceil_64)
  then have xb: "x < unat (gridDim_x L)"
    using row_tile_bound [OF bd(3)] by (simp add: x_def)
  note d = O_owner_decode [of r c, folded t_def]
  have tb: "t < 128" using d by simp
  have fb: "fv < unat (arg_head_dim L div 16)"
    using bd(4) head_dim_tiles [OF fits] unfolding fv_def by simp
  have hb: "hr < 2" "hc < 2" "lo < 2" by (simp_all add: hr_def hc_def lo_def)
  have re: "64 * x + 16 * (t div 32) + (t mod 32) div 4 + 8 * hr = r"
    using row_encode [of r] d by (simp add: x_def hr_def)
  have ce: "16 * fv + 8 * hc + 2 * (t mod 4) + lo = c"
    using col_encode [of c] d by (simp add: fv_def hc_def lo_def)
  have m: "(of_nat b, of_nat h, of_nat x, of_nat t) \<in> set (grid_threads L)"
    unfolding in_grid_threads using bd(1,2) xb tb by blast
  have ve: "v = rn (reg_RO (R (of_nat b) (of_nat h) (of_nat x) (of_nat t)) 0 fv (4 * hc + 2 * hr + lo))"
    unfolding pv(2) O_value_def O_reg_def x_def t_def fv_def hc_def hr_def lo_def by simp
  have "(p, v) \<in> set (thread_O_writes rn L (of_nat b) (of_nat h) (of_nat x) (of_nat t)
                (reg_RO (R (of_nat b) (of_nat h) (of_nat x) (of_nat t))))"
    unfolding thread_O_writes_mem [OF grid_x_bound [OF ok xb] tb fits bd(1) bd(2)]
    using fb hb bd(3) pv(1) ve re ce by blast
  then show "(p, v) \<in> set (kernel_O_writes rn L R sched)"
    unfolding in_kernel_O_writes sched using m by blast
qed

end
